theory Spec2Isabelle
  imports Main "HOL-Library.Word"
begin

unbundle bit_operations_syntax

section \<open>Package time\<close>

text \<open>
  A \<open>time.Time\<close> is the instant it denotes, in nanoseconds since the Unix epoch; a
  \<open>time.Duration\<close> is a number of nanoseconds. Go keeps the seconds of a \<open>Time\<close> in an
  \<open>int64\<close> counted from January 1 of year 1, and \<open>time.Unix(sec, 0)\<close> gets there by adding
  \<open>unixToInternal\<close> to \<open>sec\<close> in \<open>int64\<close>: the sum wraps for \<open>sec\<close> above
  9223371974719179007, and the value then denotes an instant far in the past.
  \<open>Time.Sub\<close> computes the difference of the two instants and, as its documentation says,
  gives the largest or smallest duration when the difference does not fit the 64 bits of
  a \<open>Duration\<close>. Readings of \<open>time.Now()\<close> are not bounded here.
\<close>

type_synonym Time = int
type_synonym Duration = int

definition Second :: Duration where
  "Second = 1000000000"

definition Minute :: Duration where
  "Minute = 60 * Second"

definition minDuration :: Duration where
  "minDuration = - (2 ^ 63)"

definition maxDuration :: Duration where
  "maxDuration = 2 ^ 63 - 1"

definition Time_Add :: "Time \<Rightarrow> Duration \<Rightarrow> Time" where
  "Time_Add t d = t + d"

definition Time_Sub :: "Time \<Rightarrow> Time \<Rightarrow> Duration" where
  "Time_Sub t u =
     (if t - u > maxDuration then maxDuration
      else if t - u < minDuration then minDuration
      else t - u)"

text \<open>\<open>t.Unix()\<close>: whole seconds since the epoch, the nanoseconds dropped.\<close>

definition Time_Unix :: "Time \<Rightarrow> int" where
  "Time_Unix t = t div Second"

text \<open>Two's complement wrap-around to 64 bits.\<close>

definition int64 :: "int \<Rightarrow> int" where
  "int64 x = (x + 2 ^ 63) mod 2 ^ 64 - 2 ^ 63"

text \<open>The seconds from January 1 of year 1 to the Unix epoch.\<close>

definition unixToInternal :: int where
  "unixToInternal = 62135596800"

text \<open>
  \<open>time.Unix(sec, 0)\<close>: the internal seconds are \<open>sec + unixToInternal\<close> in \<open>int64\<close>, and
  the instant is the one those seconds denote.
\<close>

definition time_Unix :: "int \<Rightarrow> Time" where
  "time_Unix sec = (int64 (sec + unixToInternal) - unixToInternal) * Second"

section \<open>Package crypto/sha256\<close>

text \<open>
  SHA-256 as in FIPS 180-4, on Go strings (lists of 8-bit characters). A \<open>hash.Hash\<close> is
  represented by the bytes written to it so far; \<open>Sum\<close> appends the digest of those bytes
  to its argument and leaves the hash as it is.
\<close>

type_synonym uint32 = "32 word"

definition rotr :: "nat \<Rightarrow> uint32 \<Rightarrow> uint32" where
  "rotr n x = drop_bit n x OR push_bit (32 - n) x"

definition Ch :: "uint32 \<Rightarrow> uint32 \<Rightarrow> uint32 \<Rightarrow> uint32" where
  "Ch x y z = (x AND y) XOR (NOT x AND z)"

definition Maj :: "uint32 \<Rightarrow> uint32 \<Rightarrow> uint32 \<Rightarrow> uint32" where
  "Maj x y z = (x AND y) XOR (x AND z) XOR (y AND z)"

definition bigSigma0 :: "uint32 \<Rightarrow> uint32" where
  "bigSigma0 x = rotr 2 x XOR rotr 13 x XOR rotr 22 x"

definition bigSigma1 :: "uint32 \<Rightarrow> uint32" where
  "bigSigma1 x = rotr 6 x XOR rotr 11 x XOR rotr 25 x"

definition smallSigma0 :: "uint32 \<Rightarrow> uint32" where
  "smallSigma0 x = rotr 7 x XOR rotr 18 x XOR drop_bit 3 x"

definition smallSigma1 :: "uint32 \<Rightarrow> uint32" where
  "smallSigma1 x = rotr 17 x XOR rotr 19 x XOR drop_bit 10 x"

text \<open>The 64 round constants, four to a row.\<close>

definition K256 :: "uint32 list" where
  "K256 = concat [
    [0x428a2f98, 0x71374491, 0xb5c0fbcf, 0xe9b5dba5],
    [0x3956c25b, 0x59f111f1, 0x923f82a4, 0xab1c5ed5],
    [0xd807aa98, 0x12835b01, 0x243185be, 0x550c7dc3],
    [0x72be5d74, 0x80deb1fe, 0x9bdc06a7, 0xc19bf174],
    [0xe49b69c1, 0xefbe4786, 0x0fc19dc6, 0x240ca1cc],
    [0x2de92c6f, 0x4a7484aa, 0x5cb0a9dc, 0x76f988da],
    [0x983e5152, 0xa831c66d, 0xb00327c8, 0xbf597fc7],
    [0xc6e00bf3, 0xd5a79147, 0x06ca6351, 0x14292967],
    [0x27b70a85, 0x2e1b2138, 0x4d2c6dfc, 0x53380d13],
    [0x650a7354, 0x766a0abb, 0x81c2c92e, 0x92722c85],
    [0xa2bfe8a1, 0xa81a664b, 0xc24b8b70, 0xc76c51a3],
    [0xd192e819, 0xd6990624, 0xf40e3585, 0x106aa070],
    [0x19a4c116, 0x1e376c08, 0x2748774c, 0x34b0bcb5],
    [0x391c0cb3, 0x4ed8aa4a, 0x5b9cca4f, 0x682e6ff3],
    [0x748f82ee, 0x78a5636f, 0x84c87814, 0x8cc70208],
    [0x90befffa, 0xa4506ceb, 0xbef9a3f7, 0xc67178f2]]"

definition init256 :: "uint32 list" where
  "init256 = [0x6a09e667, 0xbb67ae85, 0x3c6ef372, 0xa54ff53a,
              0x510e527f, 0x9b05688c, 0x1f83d9ab, 0x5be0cd19]"

definition byte :: "'a::len word \<Rightarrow> char" where
  "byte w = Char (bit w 0) (bit w 1) (bit w 2) (bit w 3) (bit w 4) (bit w 5) (bit w 6) (bit w 7)"

definition putUint32 :: "uint32 \<Rightarrow> string" where
  "putUint32 w = [byte (drop_bit 24 w), byte (drop_bit 16 w), byte (drop_bit 8 w), byte w]"

definition putUint64 :: "64 word \<Rightarrow> string" where
  "putUint64 w = map (\<lambda>k. byte (drop_bit (8 * k) w)) [7, 6, 5, 4, 3, 2, 1, 0]"

text \<open>The message, a 1 bit, zeros up to 56 modulo 64 bytes, and the bit length in 64 bits.\<close>

definition pad :: "string \<Rightarrow> string" where
  "pad m = m @ [CHR 0x80]
             @ replicate ((119 - length m mod 64) mod 64) (CHR 0x00)
             @ putUint64 (push_bit 3 (of_nat (length m)))"

fun beWord :: "string \<Rightarrow> uint32" where
  "beWord [] = 0"
| "beWord (c # cs) = push_bit (8 * length cs) (of_char c) + beWord cs"

fun chunks :: "nat \<Rightarrow> string \<Rightarrow> string list" where
  "chunks 0 bs = []"
| "chunks (Suc n) bs = (if bs = [] then [] else take 64 bs # chunks n (drop 64 bs))"

fun words :: "nat \<Rightarrow> string \<Rightarrow> uint32 list" where
  "words 0 bs = []"
| "words (Suc k) bs = beWord (take 4 bs) # words k (drop 4 bs)"

definition extend :: "uint32 list \<Rightarrow> uint32 list" where
  "extend w = (let n = length w in
     w @ [smallSigma1 (w ! (n - 2)) + w ! (n - 7) + smallSigma0 (w ! (n - 15)) + w ! (n - 16)])"

definition schedule :: "string \<Rightarrow> uint32 list" where
  "schedule blk = (extend ^^ 48) (words 16 blk)"

fun round256 :: "uint32 list \<Rightarrow> uint32 \<times> uint32 \<Rightarrow> uint32 list" where
  "round256 [a, b, c, d, e, f, g, h] (k, w) =
     (let t1 = h + bigSigma1 e + Ch e f g + k + w;
          t2 = bigSigma0 a + Maj a b c
      in [t1 + t2, a, b, c, d + t1, e, f, g])"
| "round256 s _ = s"

definition block256 :: "uint32 list \<Rightarrow> string \<Rightarrow> uint32 list" where
  "block256 h blk = map2 (+) h (foldl round256 h (zip K256 (schedule blk)))"

definition Sum256 :: "string \<Rightarrow> string" where
  "Sum256 m = concat (map putUint32
                 (foldl block256 init256 (chunks (length m + 72) (pad m))))"

type_synonym Hash = string

definition sha256_New :: Hash where
  "sha256_New = []"

definition Hash_Write :: "Hash \<Rightarrow> string \<Rightarrow> Hash" where
  "Hash_Write h p = h @ p"

definition Hash_Sum :: "Hash \<Rightarrow> string \<Rightarrow> string" where
  "Hash_Sum h b = b @ Sum256 h"

section \<open>Package jwt (github.com/dgrijalva/jwt-go)\<close>

text \<open>
  The parts of the token library the handlers call. The compact serialisation (base64url
  over JSON) is not spelled out: a header value either is one that \<open>ParseUnverified\<close>
  rejects, or it decodes to a signing method, a claim set and a signature. Signatures are
  symbolic: \<open>HMAC k m c\<close> is the MAC that method \<open>m\<close> computes with key \<open>k\<close>
  over the signing string of header \<open>m\<close> and claims \<open>c\<close>, and two MACs are equal only
  when key, method and claims are.
\<close>

record StandardClaims =
  Audience :: string
  ExpiresAt :: int
  Id :: string
  IssuedAt :: int
  Issuer :: string
  NotBefore :: int
  Subject :: string

text \<open>
  \<open>type Claims struct { Username string; jwt.StandardClaims }\<close> of the handlers package.
  The field is called \<open>ClaimsUsername\<close> here, \<open>Username\<close> being the field of \<open>User\<close>.
\<close>

record Claims = StandardClaims +
  ClaimsUsername :: string

datatype SigningMethod =
    SigningMethodHS256
  | SigningMethodHS384
  | SigningMethodHS512
  | SigningMethodOther string

text \<open>The dynamic type of a key passed as \<open>interface{}\<close>: a byte slice or a string.\<close>

datatype Key = ByteSlice string | GoString string

datatype Signature = HMAC string SigningMethod Claims | Opaque string

datatype TokenString = Unparsable string | Compact SigningMethod Claims Signature

record Token =
  Method :: SigningMethod
  TokenClaims :: Claims
  TokenSignature :: Signature
  Valid :: bool

record ValidationError =
  Errors :: uint32

definition ValidationErrorMalformed :: uint32 where
  "ValidationErrorMalformed = push_bit 0 1"

definition ValidationErrorUnverifiable :: uint32 where
  "ValidationErrorUnverifiable = push_bit 1 1"

definition ValidationErrorSignatureInvalid :: uint32 where
  "ValidationErrorSignatureInvalid = push_bit 2 1"

definition ValidationErrorExpired :: uint32 where
  "ValidationErrorExpired = push_bit 4 1"

definition ValidationErrorIssuedAt :: uint32 where
  "ValidationErrorIssuedAt = push_bit 5 1"

definition ValidationErrorNotValidYet :: uint32 where
  "ValidationErrorNotValidYet = push_bit 7 1"

definition ErrInvalidKeyType :: string where
  "ErrInvalidKeyType = ''key is of invalid type''"

definition ErrSignatureInvalid :: string where
  "ErrSignatureInvalid = ''signature is invalid''"

definition isHMAC :: "SigningMethod \<Rightarrow> bool" where
  "isHMAC m = (case m of SigningMethodOther _ \<Rightarrow> False | _ \<Rightarrow> True)"

text \<open>
  \<open>SigningMethodHMAC.Sign\<close> and \<open>Verify\<close> accept a key only as a byte slice and
  answer \<open>ErrInvalidKeyType\<close> to anything else. The other registered methods (RSA, ECDSA,
  none) take keys of their own types and refuse both a byte slice and a string, each with
  an error of its own, which is written \<open>ErrInvalidKeyType\<close> here as well.
\<close>

definition Sign :: "SigningMethod \<Rightarrow> Claims \<Rightarrow> Key \<Rightarrow> string + Signature" where
  "Sign m c key =
     (if isHMAC m then
        (case key of ByteSlice k \<Rightarrow> Inr (HMAC k m c) | GoString _ \<Rightarrow> Inl ErrInvalidKeyType)
      else Inl ErrInvalidKeyType)"

definition Verify :: "SigningMethod \<Rightarrow> Claims \<Rightarrow> Signature \<Rightarrow> Key \<Rightarrow> string option" where
  "Verify m c sig key =
     (if isHMAC m then
        (case key of
           ByteSlice k \<Rightarrow> if sig = HMAC k m c then None else Some ErrSignatureInvalid
         | GoString _ \<Rightarrow> Some ErrInvalidKeyType)
      else Some ErrInvalidKeyType)"

text \<open>\<open>jwt.NewWithClaims(method, claims).SignedString(key)\<close>.\<close>

definition SignedString :: "SigningMethod \<Rightarrow> Claims \<Rightarrow> Key \<Rightarrow> string + TokenString" where
  "SignedString m c key =
     (case Sign m c key of Inl err \<Rightarrow> Inl err | Inr sig \<Rightarrow> Inr (Compact m c sig))"

definition verifyExp :: "int \<Rightarrow> int \<Rightarrow> bool \<Rightarrow> bool" where
  "verifyExp exp now required = (if exp = 0 then \<not> required else now \<le> exp)"

definition verifyIat :: "int \<Rightarrow> int \<Rightarrow> bool \<Rightarrow> bool" where
  "verifyIat iat now required = (if iat = 0 then \<not> required else now \<ge> iat)"

definition verifyNbf :: "int \<Rightarrow> int \<Rightarrow> bool \<Rightarrow> bool" where
  "verifyNbf nbf now required = (if nbf = 0 then \<not> required else now \<ge> nbf)"

text \<open>
  \<open>StandardClaims.Valid\<close>, which \<open>Claims\<close> inherits by embedding; \<open>t\<close> is the clock
  reading of \<open>TimeFunc()\<close>.
\<close>

definition Claims_Valid :: "Time \<Rightarrow> Claims \<Rightarrow> ValidationError option" where
  "Claims_Valid t c =
     (let now = Time_Unix t;
          e1 = (if \<not> verifyExp (ExpiresAt c) now False then ValidationErrorExpired else 0);
          e2 = (if \<not> verifyIat (IssuedAt c) now False then e1 OR ValidationErrorIssuedAt else e1);
          e3 = (if \<not> verifyNbf (NotBefore c) now False then e2 OR ValidationErrorNotValidYet else e2)
      in if e3 = 0 then None else Some \<lparr>Errors = e3\<rparr>)"

text \<open>
  \<open>jwt.ParseWithClaims(tokenString, claims, keyFunc)\<close> with the default parser (claims
  validation on, any registered method accepted); \<open>key\<close> is what \<open>keyFunc\<close> returns.
  The result is the pair \<open>(tkn, err)\<close>.
\<close>

definition ParseWithClaims :: "Time \<Rightarrow> TokenString \<Rightarrow> Key \<Rightarrow> Token option \<times> ValidationError option" where
  "ParseWithClaims t tokenString key =
     (case tokenString of
        Unparsable _ \<Rightarrow> (None, Some \<lparr>Errors = ValidationErrorMalformed\<rparr>)
      | Compact m c sig \<Rightarrow>
          (let token = \<lparr>Method = m, TokenClaims = c, TokenSignature = sig, Valid = False\<rparr>;
               vErr = (case Claims_Valid t c of Some e \<Rightarrow> e | None \<Rightarrow> \<lparr>Errors = 0\<rparr>);
               vErr' = (case Verify m c sig key of
                          Some _ \<Rightarrow> vErr\<lparr>Errors := Errors vErr OR ValidationErrorSignatureInvalid\<rparr>
                        | None \<Rightarrow> vErr)
           in if Errors vErr' = 0 then (Some (token\<lparr>Valid := True\<rparr>), None)
              else (Some token, Some vErr')))"

section \<open>Package models and the users collection\<close>

text \<open>
  Modelled from the spec: \<open>models.User\<close>, whose declaration is not among the sources, is
  the record of a username and a password field, both of them serialised.
\<close>

record User =
  Username :: string
  Password :: string

text \<open>
  The MongoDB collection: its documents in insertion order, and whether the server
  answers. \<open>FindOne\<close> gives the first document matching the filter.
\<close>

record Collection =
  docs :: "User list"
  reachable :: bool

datatype SingleResult = Document User | ErrNoDocuments | ErrStore string

definition FindOne :: "Collection \<Rightarrow> (User \<Rightarrow> bool) \<Rightarrow> SingleResult" where
  "FindOne coll flt =
     (if \<not> reachable coll then ErrStore ''server selection error''
      else case filter flt (docs coll) of [] \<Rightarrow> ErrNoDocuments | d # _ \<Rightarrow> Document d)"

definition InsertOne :: "Collection \<Rightarrow> User \<Rightarrow> string + Collection" where
  "InsertOne coll u =
     (if \<not> reachable coll then Inl ''server selection error''
      else Inr (coll\<lparr>docs := docs coll @ [u]\<rparr>))"


section \<open>The handlers\<close>

record JWTOutput =
  Token :: TokenString
  Expires :: Time

text \<open>
  What \<open>c.JSON(status, body)\<close> sends. \<open>H_error msg\<close> is \<open>gin.H{"error": msg}\<close>;
  \<open>H_error_of e\<close> is the same with the text of a token validation error \<open>e\<close>.
\<close>

datatype Body =
    H_error string
  | H_error_of ValidationError
  | JSON_JWTOutput JWTOutput
  | JSON_User User

record Response =
  Status :: nat
  Body :: Body

definition StatusOK :: nat where "StatusOK = 200"
definition StatusBadRequest :: nat where "StatusBadRequest = 400"
definition StatusUnauthorized :: nat where "StatusUnauthorized = 401"
definition StatusInternalServerError :: nat where "StatusInternalServerError = 500"

text \<open>
  \<open>secret\<close> is \<open>os.Getenv("JWT_SECRET")\<close>, \<open>now\<close> the reading of \<open>time.Now()\<close>, and
  \<open>bound\<close> the outcome of \<open>c.ShouldBindJSON(&user)\<close>: the error text or the user.
\<close>

definition SignInHandler :: "string \<Rightarrow> Time \<Rightarrow> Collection \<Rightarrow> string + User \<Rightarrow> Response" where
  "SignInHandler secret now coll bound =
     (case bound of
        Inl err \<Rightarrow> \<lparr>Status = StatusBadRequest, Body = H_error err\<rparr>
      | Inr user \<Rightarrow>
          (let h = sha256_New;
               cur = FindOne coll (\<lambda>d. Username d = Username user
                                      \<and> Password d = Hash_Sum h (Password user))
           in case cur of
                Document _ \<Rightarrow>
                  (let expirationTime = Time_Add now (10 * Minute);
                       claims = \<lparr>Audience = [], ExpiresAt = Time_Unix expirationTime, Id = [],
                                 IssuedAt = 0, Issuer = [], NotBefore = 0, Subject = [],
                                 ClaimsUsername = Username user\<rparr>
                   in case SignedString SigningMethodHS256 claims (ByteSlice secret) of
                        Inl err \<Rightarrow> \<lparr>Status = StatusInternalServerError, Body = H_error err\<rparr>
                      | Inr tokenString \<Rightarrow>
                          \<lparr>Status = StatusOK,
                           Body = JSON_JWTOutput \<lparr>Token = tokenString, Expires = expirationTime\<rparr>\<rparr>)
              | _ \<Rightarrow> \<lparr>Status = StatusUnauthorized, Body = H_error ''Invalid username or password''\<rparr>))"

text \<open>
  \<open>RefreshHandler\<close> reads the clock three times: inside the parser, for the 30 seconds
  test, and for the new expiry.
\<close>

definition RefreshHandler :: "string \<Rightarrow> Time \<Rightarrow> Time \<Rightarrow> Time \<Rightarrow> TokenString \<Rightarrow> Response" where
  "RefreshHandler secret tParse tCheck tMint tokenValue =
     (case ParseWithClaims tParse tokenValue (ByteSlice secret) of
        (_, Some err) \<Rightarrow> \<lparr>Status = StatusUnauthorized, Body = H_error_of err\<rparr>
      | (None, None) \<Rightarrow> \<lparr>Status = StatusUnauthorized, Body = H_error ''Invalid token''\<rparr>
      | (Some tkn, None) \<Rightarrow>
          if \<not> Valid tkn then \<lparr>Status = StatusUnauthorized, Body = H_error ''Invalid token''\<rparr>
          else
            (let claims = TokenClaims tkn in
             if Time_Sub (time_Unix (ExpiresAt claims)) tCheck > 30 * Second
             then \<lparr>Status = StatusBadRequest, Body = H_error ''Token is not expired yet''\<rparr>
             else
               (let expirationTime = Time_Add tMint (5 * Minute);
                    claims' = claims\<lparr>ExpiresAt := Time_Unix expirationTime\<rparr>
                in case SignedString SigningMethodHS256 claims' (GoString secret) of
                     Inl err \<Rightarrow> \<lparr>Status = StatusInternalServerError, Body = H_error err\<rparr>
                   | Inr tokenString \<Rightarrow>
                       \<lparr>Status = StatusOK,
                        Body = JSON_JWTOutput \<lparr>Token = tokenString, Expires = expirationTime\<rparr>\<rparr>)))"

definition SignUpHandler :: "Collection \<Rightarrow> string + User \<Rightarrow> Response \<times> Collection" where
  "SignUpHandler coll bound =
     (case bound of
        Inl err \<Rightarrow> (\<lparr>Status = StatusBadRequest, Body = H_error err\<rparr>, coll)
      | Inr user \<Rightarrow>
          (case FindOne coll (\<lambda>d. Username d = Username user) of
             ErrNoDocuments \<Rightarrow>
               (let h = sha256_New;
                    user' = user\<lparr>Password := Hash_Sum h (Password user)\<rparr>
                in case InsertOne coll user' of
                     Inl err \<Rightarrow> (\<lparr>Status = StatusInternalServerError, Body = H_error err\<rparr>, coll)
                   | Inr coll' \<Rightarrow> (\<lparr>Status = StatusOK, Body = JSON_User user'\<rparr>, coll'))
           | _ \<Rightarrow> (\<lparr>Status = StatusBadRequest, Body = H_error ''Username already exists''\<rparr>, coll)))"


section \<open>Package gin: the handler chain\<close>

text \<open>
  A request context with the chain of handlers registered for its route, the position
  \<open>index\<close> in that chain, the \<open>Authorization\<close> header, the response writer (the status
  it holds and the status line it has sent, if any) and the numbers of the route handlers
  that have run. \<open>Logger\<close> and \<open>Recovery\<close> are the two middlewares of \<open>gin.Default()\<close>;
  \<open>RouteHandler k\<close> stands for an endpoint, which answers and calls neither \<open>Next\<close> nor
  \<open>Abort\<close>.
\<close>

datatype HandlerFunc = Logger | Recovery | AuthMiddleware | RouteHandler nat

record Context =
  handlers :: "HandlerFunc list"
  index :: int
  Authorization :: TokenString
  writerStatus :: nat
  sent :: "nat option"
  served :: "nat list"

definition abortIndex :: int where
  "abortIndex = 63"

definition Abort :: "Context \<Rightarrow> Context" where
  "Abort c = c\<lparr>index := abortIndex\<rparr>"

definition WriteHeader :: "nat \<Rightarrow> Context \<Rightarrow> Context" where
  "WriteHeader code c =
     (if code > 0 \<and> writerStatus c \<noteq> code then c\<lparr>writerStatus := code\<rparr> else c)"

definition WriteHeaderNow :: "Context \<Rightarrow> Context" where
  "WriteHeaderNow c =
     (case sent c of None \<Rightarrow> c\<lparr>sent := Some (writerStatus c)\<rparr> | Some _ \<Rightarrow> c)"

definition AbortWithStatus :: "nat \<Rightarrow> Context \<Rightarrow> Context" where
  "AbortWithStatus code c = Abort (WriteHeaderNow (WriteHeader code c))"

text \<open>The body of the function \<open>AuthMiddleware()\<close> returns, up to its call of \<open>c.Next()\<close>.\<close>

definition AuthMiddleware_body :: "string \<Rightarrow> Time \<Rightarrow> Context \<Rightarrow> Context" where
  "AuthMiddleware_body secret now c =
     (case ParseWithClaims now (Authorization c) (ByteSlice secret) of
        (tkn, err) \<Rightarrow>
          (let c1 = (case err of Some _ \<Rightarrow> AbortWithStatus StatusUnauthorized c | None \<Rightarrow> c)
           in case tkn of
                None \<Rightarrow> AbortWithStatus StatusUnauthorized c1
              | Some t \<Rightarrow> if \<not> Valid t then AbortWithStatus StatusUnauthorized c1 else c1))"

definition RouteHandler_body :: "nat \<Rightarrow> Context \<Rightarrow> Context" where
  "RouteHandler_body k c = (WriteHeaderNow (WriteHeader StatusOK c))\<lparr>served := served c @ [k]\<rparr>"

text \<open>
  \<open>Context.Next\<close>: \<open>c.index++; for c.index < len(c.handlers) { c.handlers[c.index](c); c.index++ }\<close>.
  Handlers call \<open>Next\<close> themselves, so the loop is nested in itself; it runs on fuel, and
  \<open>None\<close> is the fuel run out (or an index below 0, where Go panics).
\<close>

fun Next :: "string \<Rightarrow> Time \<Rightarrow> nat \<Rightarrow> Context \<Rightarrow> Context option"
and Next_loop :: "string \<Rightarrow> Time \<Rightarrow> nat \<Rightarrow> Context \<Rightarrow> Context option"
and call :: "string \<Rightarrow> Time \<Rightarrow> nat \<Rightarrow> HandlerFunc \<Rightarrow> Context \<Rightarrow> Context option"
where
  "Next secret now 0 c = None"
| "Next secret now (Suc n) c = Next_loop secret now n (c\<lparr>index := index c + 1\<rparr>)"
| "Next_loop secret now 0 c = None"
| "Next_loop secret now (Suc n) c =
     (if index c < int (length (handlers c)) then
        (if index c < 0 then None
         else case call secret now n (handlers c ! nat (index c)) c of
                None \<Rightarrow> None
              | Some c' \<Rightarrow> Next_loop secret now n (c'\<lparr>index := index c' + 1\<rparr>))
      else Some c)"
| "call secret now n Logger c = Next secret now n c"
| "call secret now n Recovery c = Next secret now n c"
| "call secret now n AuthMiddleware c = Next secret now n (AuthMiddleware_body secret now c)"
| "call secret now n (RouteHandler k) c = Some (RouteHandler_body k c)"

text \<open>
  Serving a request: a fresh context (index -1, status 200, nothing sent) runs the chain
  and the status line is flushed at the end.
\<close>

definition handleHTTPRequest :: "string \<Rightarrow> Time \<Rightarrow> nat \<Rightarrow> HandlerFunc list \<Rightarrow> TokenString \<Rightarrow> Context option" where
  "handleHTTPRequest secret now fuel chain auth =
     map_option WriteHeaderNow
       (Next secret now fuel
          \<lparr>handlers = chain, index = - 1, Authorization = auth,
           writerStatus = StatusOK, sent = None, served = []\<rparr>)"

text \<open>The chain of a route of the \<open>authorized\<close> group of \<open>main\<close>.\<close>

definition authorized :: "nat \<Rightarrow> HandlerFunc list" where
  "authorized k = [Logger, Recovery, AuthMiddleware, RouteHandler k]"

section \<open>Facts about the library functions\<close>

subsection \<open>Conversion from Unix seconds\<close>

lemma int64_ge: "x \<le> 2 ^ 63 - 1 \<Longrightarrow> x \<le> int64 x"
proof -
  assume x: "x \<le> 2 ^ 63 - 1"
  let ?y = "x + 2 ^ 63"
  have "?y \<le> ?y mod 2 ^ 64"
  proof (cases "0 \<le> ?y")
    case True
    with x have "?y mod 2 ^ 64 = ?y" by (intro mod_pos_pos_trivial) simp_all
    then show ?thesis by simp
  next
    case False
    have "0 \<le> ?y mod 2 ^ 64" by simp
    with False show ?thesis by linarith
  qed
  then show ?thesis by (simp add: int64_def)
qed

lemma time_Unix_ge:
  assumes "sec \<le> 9223371974719179007"
  shows "sec * Second \<le> time_Unix sec"
proof -
  have "sec + unixToInternal \<le> int64 (sec + unixToInternal)"
    using assms by (intro int64_ge) (simp add: unixToInternal_def)
  then have "sec \<le> int64 (sec + unixToInternal) - unixToInternal" by simp
  then show ?thesis
    unfolding time_Unix_def by (intro mult_right_mono) (simp_all add: Second_def)
qed

lemma time_Unix_in_range:
  assumes "- (2 ^ 63) - unixToInternal \<le> sec" and "sec \<le> 9223371974719179007"
  shows "time_Unix sec = sec * Second"
proof -
  have "0 \<le> sec + unixToInternal + 2 ^ 63" and "sec + unixToInternal + 2 ^ 63 < 2 ^ 64"
    using assms by (simp_all add: unixToInternal_def)
  then have "(sec + unixToInternal + 2 ^ 63) mod 2 ^ 64 = sec + unixToInternal + 2 ^ 63"
    by (intro mod_pos_pos_trivial)
  then show ?thesis by (simp add: time_Unix_def int64_def)
qed

subsection \<open>A SHA-256 digest has 32 bytes\<close>

lemma round256_length: "length s = 8 \<Longrightarrow> length (round256 s kw) = 8"
  by (cases kw) (auto simp: numeral_eq_Suc length_Suc_conv Let_def)

lemma foldl_round256_length: "length s = 8 \<Longrightarrow> length (foldl round256 s kws) = 8"
  by (induction kws arbitrary: s) (simp_all add: round256_length)

lemma block256_length: "length h = 8 \<Longrightarrow> length (block256 h blk) = 8"
  by (simp add: block256_def foldl_round256_length)

lemma foldl_block256_length: "length h = 8 \<Longrightarrow> length (foldl block256 h blks) = 8"
  by (induction blks arbitrary: h) (simp_all add: block256_length)

lemma concat_putUint32_length: "length (concat (map putUint32 ws)) = 4 * length ws"
  by (induction ws) (simp_all add: putUint32_def)

lemma Sum256_length: "length (Sum256 m) = 32"
  by (simp add: Sum256_def concat_putUint32_length foldl_block256_length init256_def)

text \<open>
  Writing the data and then calling \<open>Sum(nil)\<close> gives the digest of the data. Calling
  \<open>Sum(data)\<close> on a fresh hash gives the data followed by the digest of nothing.
\<close>

lemma Hash_Write_Sum: "Hash_Sum (Hash_Write sha256_New p) [] = Sum256 p"
  by (simp add: Hash_Sum_def Hash_Write_def sha256_New_def)

lemma Hash_Sum_New: "Hash_Sum sha256_New p = p @ Sum256 []"
  by (simp add: Hash_Sum_def sha256_New_def)

lemma Hash_Sum_New_neq_Sum256: "p \<noteq> [] \<Longrightarrow> Hash_Sum sha256_New p \<noteq> Sum256 p"
proof
  assume "p \<noteq> []" and eq: "Hash_Sum sha256_New p = Sum256 p"
  from eq have "length (Hash_Sum sha256_New p) = length (Sum256 p)" by simp
  then have "length p = 0" by (simp add: Hash_Sum_New Sum256_length)
  with \<open>p \<noteq> []\<close> show False by simp
qed

subsection \<open>The collection\<close>

lemma FindOne_cases:
  "FindOne coll flt = ErrNoDocuments \<longleftrightarrow> reachable coll \<and> filter flt (docs coll) = []"
  by (auto simp: FindOne_def split: list.splits)

lemma FindOne_Document:
  "FindOne coll flt = Document d \<Longrightarrow> reachable coll \<and> d \<in> set (docs coll) \<and> flt d"
proof -
  assume a: "FindOne coll flt = Document d"
  then have r: "reachable coll" by (auto simp: FindOne_def split: if_splits)
  with a obtain ds where "filter flt (docs coll) = d # ds"
    by (auto simp: FindOne_def split: list.splits)
  then have "d \<in> set (filter flt (docs coll))" by simp
  with r show ?thesis by simp
qed



subsection \<open>Signing and parsing\<close>

lemma SignedString_ByteSlice:
  "SignedString SigningMethodHS256 c (ByteSlice k)
     = Inr (Compact SigningMethodHS256 c (HMAC k SigningMethodHS256 c))"
  by (simp add: SignedString_def Sign_def isHMAC_def)

lemma SignedString_GoString: "SignedString m c (GoString k) = Inl ErrInvalidKeyType"
  by (simp add: SignedString_def Sign_def)

lemma Errors_flags_nonzero:
  "ValidationErrorExpired \<noteq> 0" "ValidationErrorIssuedAt \<noteq> 0"
  "ValidationErrorNotValidYet \<noteq> 0" "ValidationErrorSignatureInvalid \<noteq> 0"
  "ValidationErrorMalformed \<noteq> 0"
  by (simp_all add: ValidationErrorExpired_def ValidationErrorIssuedAt_def
        ValidationErrorNotValidYet_def ValidationErrorSignatureInvalid_def
        ValidationErrorMalformed_def)

lemma Claims_Valid_None:
  "(Claims_Valid t c = None)
     = ((ExpiresAt c = 0 \<or> Time_Unix t \<le> ExpiresAt c)
        \<and> (IssuedAt c = 0 \<or> IssuedAt c \<le> Time_Unix t)
        \<and> (NotBefore c = 0 \<or> NotBefore c \<le> Time_Unix t))"
  by (auto simp: Claims_Valid_def Let_def verifyExp_def verifyIat_def verifyNbf_def
        Errors_flags_nonzero or_eq_0_iff)

lemma Claims_Valid_Some: "Claims_Valid t c = Some e \<Longrightarrow> Errors e \<noteq> 0"
  by (auto simp: Claims_Valid_def Let_def split: if_splits)

lemma ParseWithClaims_ok:
  "(ParseWithClaims t tok key = (Some tkn, None))
     = (\<exists>m c sig. tok = Compact m c sig
          \<and> tkn = \<lparr>Method = m, TokenClaims = c, TokenSignature = sig, Valid = True\<rparr>
          \<and> Claims_Valid t c = None \<and> Verify m c sig key = None)"
  by (cases tok)
     (auto simp: ParseWithClaims_def Let_def or_eq_0_iff Errors_flags_nonzero
           dest: Claims_Valid_Some split: option.splits)

lemma ParseWithClaims_err_None:
  "snd (ParseWithClaims t tok key) = None \<Longrightarrow> \<exists>tkn. ParseWithClaims t tok key = (Some tkn, None) \<and> Valid tkn"
  by (cases tok) (auto simp: ParseWithClaims_def Let_def split: option.splits if_splits)

lemma ParseWithClaims_err_Some:
  "ParseWithClaims t tok key = (Some tkn, Some e) \<Longrightarrow> \<not> Valid tkn"
  by (cases tok) (auto simp: ParseWithClaims_def Let_def split: option.splits if_splits)

lemma Verify_HMAC: "isHMAC m \<Longrightarrow> Verify m c (HMAC k m c) (ByteSlice k) = None"
  by (simp add: Verify_def)


subsection \<open>The handlers\<close>


lemma SignIn_OK:
  assumes "Status (SignInHandler secret now coll bound) = StatusOK"
  shows "SignInHandler secret now coll bound
           = (let c = \<lparr>Audience = [], ExpiresAt = Time_Unix (now + 10 * Minute), Id = [],
                       IssuedAt = 0, Issuer = [], NotBefore = 0, Subject = [],
                       ClaimsUsername = Username (projr bound)\<rparr>
              in \<lparr>Status = StatusOK,
                  Body = JSON_JWTOutput
                    \<lparr>Token = Compact SigningMethodHS256 c (HMAC secret SigningMethodHS256 c),
                     Expires = now + 10 * Minute\<rparr>\<rparr>)"
  using assms
  by (auto simp: SignInHandler_def Let_def SignedString_ByteSlice Time_Add_def StatusOK_def
        StatusBadRequest_def StatusUnauthorized_def split: sum.splits SingleResult.splits)

lemma SignUp_OK:
  assumes "SignUpHandler coll bound = (resp, coll')" and "Status resp = StatusOK"
  shows "\<exists>user. bound = Inr user \<and> reachable coll
           \<and> Username user \<notin> Username ` set (docs coll)
           \<and> coll' = coll\<lparr>docs := docs coll @ [user\<lparr>Password := Hash_Sum sha256_New (Password user)\<rparr>]\<rparr>
           \<and> resp = \<lparr>Status = StatusOK,
                      Body = JSON_User (user\<lparr>Password := Hash_Sum sha256_New (Password user)\<rparr>)\<rparr>"
proof (cases bound)
  case (Inl err)
  with assms show ?thesis
    by (auto simp: SignUpHandler_def StatusOK_def StatusBadRequest_def)
next
  case (Inr user)
  with assms have f: "FindOne coll (\<lambda>d. Username d = Username user) = ErrNoDocuments"
    by (auto simp: SignUpHandler_def StatusOK_def StatusBadRequest_def split: SingleResult.splits)
  then have r: "reachable coll" and n: "Username user \<notin> Username ` set (docs coll)"
    by (auto simp: FindOne_cases filter_empty_conv)
  with assms Inr f show ?thesis
    by (auto simp: SignUpHandler_def InsertOne_def Let_def)
qed

lemma SignUp_keeps_usernames_distinct:
  assumes "distinct (map Username (docs coll))"
  shows "distinct (map Username (docs (snd (SignUpHandler coll bound))))"
proof (cases "Status (fst (SignUpHandler coll bound)) = StatusOK")
  case True
  obtain resp coll' where r: "SignUpHandler coll bound = (resp, coll')"
    by (cases "SignUpHandler coll bound")
  with True SignUp_OK [OF r] assms show ?thesis by auto
next
  case False
  then have "snd (SignUpHandler coll bound) = coll"
    by (auto simp: SignUpHandler_def Let_def InsertOne_def split: sum.splits SingleResult.splits if_splits)
  with assms show ?thesis by simp
qed

lemma RefreshHandler_never_OK:
  "Status (RefreshHandler secret tParse tCheck tMint tokenValue) \<noteq> StatusOK"
  by (simp add: RefreshHandler_def Let_def SignedString_GoString StatusOK_def
        StatusUnauthorized_def StatusBadRequest_def StatusInternalServerError_def
        split: prod.splits option.splits)

subsection \<open>The handler chain\<close>

lemma AbortWithStatus_simps:
  "index (AbortWithStatus code c) = abortIndex"
  "handlers (AbortWithStatus code c) = handlers c"
  "served (AbortWithStatus code c) = served c"
  "Authorization (AbortWithStatus code c) = Authorization c"
  by (simp_all add: AbortWithStatus_def Abort_def WriteHeaderNow_def WriteHeader_def
        split: option.splits)

lemma AbortWithStatus_sent_fresh:
  "sent c = None \<Longrightarrow> 0 < code \<Longrightarrow> sent (AbortWithStatus code c) = Some code"
  by (simp add: AbortWithStatus_def Abort_def WriteHeaderNow_def WriteHeader_def)

lemma AbortWithStatus_sent_kept:
  "sent c = Some s \<Longrightarrow> sent (AbortWithStatus code c) = Some s"
  by (simp add: AbortWithStatus_def Abort_def WriteHeaderNow_def WriteHeader_def)

lemma AuthMiddleware_body_rejects:
  assumes "snd (ParseWithClaims now (Authorization c) (ByteSlice secret)) \<noteq> None"
      and "sent c = None"
  shows "index (AuthMiddleware_body secret now c) = abortIndex
       \<and> handlers (AuthMiddleware_body secret now c) = handlers c
       \<and> served (AuthMiddleware_body secret now c) = served c
       \<and> sent (AuthMiddleware_body secret now c) = Some StatusUnauthorized"
proof -
  obtain tkn e where p: "ParseWithClaims now (Authorization c) (ByteSlice secret) = (tkn, Some e)"
    using assms(1) by (cases "ParseWithClaims now (Authorization c) (ByteSlice secret)") auto
  have s: "sent (AbortWithStatus StatusUnauthorized c) = Some StatusUnauthorized"
    using assms(2) by (simp add: AbortWithStatus_sent_fresh StatusUnauthorized_def)
  show ?thesis
  proof (cases tkn)
    case None
    with p s show ?thesis
      by (simp add: AuthMiddleware_body_def AbortWithStatus_simps AbortWithStatus_sent_kept)
  next
    case (Some t)
    with p have "\<not> Valid t" by (auto dest: ParseWithClaims_err_Some)
    with p s Some show ?thesis
      by (simp add: AuthMiddleware_body_def AbortWithStatus_simps AbortWithStatus_sent_kept)
  qed
qed

lemma Next_loop_done:
  "int (length (handlers c)) \<le> index c \<Longrightarrow> Next_loop secret now (Suc n) c = Some c"
  by simp

lemma Next_past_end:
  "int (length (handlers c)) \<le> index c + 1
     \<Longrightarrow> Next secret now (Suc (Suc n)) c = Some (c\<lparr>index := index c + 1\<rparr>)"
  by simp

lemma Next_step:
  assumes "0 \<le> index c + 1" and "index c + 1 < int (length (handlers c))"
  shows "Next secret now (Suc (Suc n)) c =
           (case call secret now n (handlers c ! nat (index c + 1)) (c\<lparr>index := index c + 1\<rparr>) of
              None \<Rightarrow> None
            | Some c' \<Rightarrow> Next_loop secret now n (c'\<lparr>index := index c' + 1\<rparr>))"
  using assms by simp

lemma call_wrapper:
  "h \<in> {Logger, Recovery} \<Longrightarrow> call secret now n h c = Next secret now n c"
  by auto

lemma chain_rejects:
  assumes hs: "hs = pre @ AuthMiddleware # post"
      and pre: "set pre \<subseteq> {Logger, Recovery}"
      and len: "length hs < 63"
      and bad: "snd (ParseWithClaims now auth (ByteSlice secret)) \<noteq> None"
  shows "length pre - j = d \<Longrightarrow> j \<le> length pre \<Longrightarrow> handlers c = hs \<Longrightarrow> index c = int j - 1
         \<Longrightarrow> Authorization c = auth \<Longrightarrow> sent c = None \<Longrightarrow> served c = [] \<Longrightarrow> 2 * d + 4 \<le> n
         \<Longrightarrow> \<exists>c'. Next secret now n c = Some c' \<and> handlers c' = hs \<and> 64 \<le> index c'
                  \<and> sent c' = Some StatusUnauthorized \<and> served c' = []"
proof (induction d arbitrary: j c n)
  case 0
  then have j: "j = length pre" by simp
  define m where "m = n - 4"
  have n: "n = Suc (Suc (Suc (Suc m)))"
    using "0.prems" by (simp add: m_def)
  let ?c1 = "c\<lparr>index := index c + 1\<rparr>"
  let ?cb = "AuthMiddleware_body secret now ?c1"
  have h: "handlers c ! nat (index c + 1) = AuthMiddleware"
    using 0 j hs by simp
  have b: "index ?cb = abortIndex \<and> handlers ?cb = hs \<and> served ?cb = []
           \<and> sent ?cb = Some StatusUnauthorized"
    using AuthMiddleware_body_rejects [of now ?c1 secret] bad 0 by simp
  have 1: "Next secret now (Suc (Suc m)) ?cb = Some (?cb\<lparr>index := index ?cb + 1\<rparr>)"
    using b len by (intro Next_past_end) (simp add: abortIndex_def)
  have "Next secret now n c = Next_loop secret now (Suc (Suc m)) (?cb\<lparr>index := index ?cb + 1 + 1\<rparr>)"
    unfolding n using 0 j hs h 1 by (subst Next_step) simp_all
  also have "\<dots> = Some (?cb\<lparr>index := index ?cb + 1 + 1\<rparr>)"
    using b len by (intro Next_loop_done) (simp add: abortIndex_def)
  finally show ?case using b by (simp add: abortIndex_def)
next
  case (Suc d)
  then have j: "j < length pre" by simp
  define m where "m = n - 2"
  have n: "n = Suc (Suc m)" and m: "2 * d + 4 \<le> m"
    using Suc.prems by (simp_all add: m_def)
  let ?c1 = "c\<lparr>index := index c + 1\<rparr>"
  have h: "handlers c ! nat (index c + 1) \<in> {Logger, Recovery}"
    using Suc.prems j hs pre by (auto simp: nth_append subset_iff)
  have "\<exists>c'. Next secret now m ?c1 = Some c' \<and> handlers c' = hs \<and> 64 \<le> index c'
              \<and> sent c' = Some StatusUnauthorized \<and> served c' = []"
    using Suc.prems j m by (intro Suc.IH [of "Suc j"]) simp_all
  then obtain c' where c': "Next secret now m ?c1 = Some c'" "handlers c' = hs" "64 \<le> index c'"
      "sent c' = Some StatusUnauthorized" "served c' = []"
    by blast
  obtain m' where m': "m = Suc m'" using m by (cases m) simp_all
  have "Next secret now n c = Next_loop secret now m (c'\<lparr>index := index c' + 1\<rparr>)"
    unfolding n using Suc.prems j hs c'(1) call_wrapper [OF h]
    by (subst Next_step) simp_all
  also have "\<dots> = Some (c'\<lparr>index := index c' + 1\<rparr>)"
    unfolding m' using c' len by (intro Next_loop_done) simp
  finally show ?case using c' by simp
qed

lemma AuthMiddleware_admits:
  assumes "snd (ParseWithClaims now auth (ByteSlice secret)) = None"
  shows "\<exists>c'. handleHTTPRequest secret now 9 (authorized k) auth = Some c'
              \<and> sent c' = Some StatusOK \<and> served c' = [k]"
proof -
  obtain tkn where "ParseWithClaims now auth (ByteSlice secret) = (Some tkn, None)" "Valid tkn"
    using ParseWithClaims_err_None [OF assms] by blast
  then show ?thesis
    by (simp add: handleHTTPRequest_def authorized_def eval_nat_numeral AuthMiddleware_body_def
          RouteHandler_body_def WriteHeaderNow_def WriteHeader_def StatusOK_def)
qed

section \<open>The claims\<close>

subsection \<open>C1: a refresh inside the 30 seconds window\<close>

text \<open>
  Claim C1 says that \<open>Refresh\<close> on a valid token with at most 30 seconds left succeeds,
  with a new token for the same username that expires 5 minutes after the call. The
  handler signs the new token with \<open>os.Getenv("JWT_SECRET")\<close> as it is, a string, where
  \<open>SignInHandler\<close> converts it to a byte slice; the HMAC method refuses the string, so
  the handler answers 500 whenever it reaches that point and never answers 200. The
  second half is the run on a token of alice with 20 seconds left.
\<close>

theorem Refresh_never_mints:
  "Status (RefreshHandler secret tParse tCheck tMint tokenValue) \<noteq> StatusOK
   \<and> RefreshHandler ''s3cret'' 580000000000 580000000000 580000000000
       (Compact SigningMethodHS256
          \<lparr>Audience = [], ExpiresAt = 600, Id = [], IssuedAt = 0, Issuer = [], NotBefore = 0,
           Subject = [], ClaimsUsername = ''alice''\<rparr>
          (HMAC ''s3cret'' SigningMethodHS256
             \<lparr>Audience = [], ExpiresAt = 600, Id = [], IssuedAt = 0, Issuer = [], NotBefore = 0,
              Subject = [], ClaimsUsername = ''alice''\<rparr>))
     = \<lparr>Status = 500, Body = H_error ''key is of invalid type''\<rparr>"
proof
  show "Status (RefreshHandler secret tParse tCheck tMint tokenValue) \<noteq> StatusOK"
    by (rule RefreshHandler_never_OK)
next
  show "RefreshHandler ''s3cret'' 580000000000 580000000000 580000000000
       (Compact SigningMethodHS256
          \<lparr>Audience = [], ExpiresAt = 600, Id = [], IssuedAt = 0, Issuer = [], NotBefore = 0,
           Subject = [], ClaimsUsername = ''alice''\<rparr>
          (HMAC ''s3cret'' SigningMethodHS256
             \<lparr>Audience = [], ExpiresAt = 600, Id = [], IssuedAt = 0, Issuer = [], NotBefore = 0,
              Subject = [], ClaimsUsername = ''alice''\<rparr>))
     = \<lparr>Status = 500, Body = H_error ''key is of invalid type''\<rparr>"
    by (simp add: RefreshHandler_def ParseWithClaims_def Claims_Valid_def Verify_def isHMAC_def
          Let_def verifyExp_def verifyIat_def verifyNbf_def Time_Unix_def time_Unix_def
          int64_def unixToInternal_def Time_Sub_def maxDuration_def minDuration_def Second_def SignedString_GoString
          ErrInvalidKeyType_def StatusInternalServerError_def)
qed

subsection \<open>C2: parsing and expiry\<close>




subsection \<open>C3: what is stored as the password\<close>

text \<open>
  Claim C3 says that the stored value is the SHA-256 digest of the password. The handlers
  call \<open>h.Sum([]byte(user.Password))\<close> on a fresh hash, which appends the digest of the
  empty input to the password: signing up with the password pw1 stores pw1 followed by
  those 32 bytes, which is not the 32 byte digest of pw1.
\<close>

theorem SignUp_stores_password_unhashed:
  "SignUpHandler \<lparr>docs = [], reachable = True\<rparr> (Inr \<lparr>Username = ''alice'', Password = ''pw1''\<rparr>)
     = (\<lparr>Status = 200, Body = JSON_User \<lparr>Username = ''alice'', Password = ''pw1'' @ Sum256 []\<rparr>\<rparr>,
        \<lparr>docs = [\<lparr>Username = ''alice'', Password = ''pw1'' @ Sum256 []\<rparr>], reachable = True\<rparr>)
   \<and> ''pw1'' @ Sum256 [] \<noteq> Sum256 ''pw1''"
proof -
  have "Hash_Sum sha256_New ''pw1'' \<noteq> Sum256 ''pw1''"
    by (rule Hash_Sum_New_neq_Sum256) simp
  then show ?thesis
    by (simp add: SignUpHandler_def FindOne_def InsertOne_def Hash_Sum_New StatusOK_def Let_def)
qed

subsection \<open>C4: sign-up, then sign-in\<close>



subsection \<open>C5: the authorization middleware on a token that does not parse\<close>

text \<open>
  Claim C5: on a route whose chain is any number of the default middlewares, the
  authorization middleware and the handlers behind it, a request whose token the parser
  refuses is answered 401 and none of the route handlers runs. The middleware does go on
  to call \<open>c.Next()\<close> after \<open>AbortWithStatus\<close>, but the abort has moved the index past
  the end of the chain. The bound 63 on the length of a chain is the one gin asserts when
  handlers are registered; given fuel for the nesting, the run ends.
\<close>

theorem AuthMiddleware_stops_chain:
  assumes "set pre \<subseteq> {Logger, Recovery}"
      and "length (pre @ AuthMiddleware # post) < 63"
      and "snd (ParseWithClaims now auth (ByteSlice secret)) \<noteq> None"
      and "2 * length pre + 4 \<le> fuel"
  shows "\<exists>c'. handleHTTPRequest secret now fuel (pre @ AuthMiddleware # post) auth = Some c'
              \<and> sent c' = Some StatusUnauthorized \<and> served c' = []"
proof -
  let ?c0 = "\<lparr>handlers = pre @ AuthMiddleware # post, index = - 1, Authorization = auth,
              writerStatus = StatusOK, sent = None, served = []\<rparr>"
  have "\<exists>c'. Next secret now fuel ?c0 = Some c' \<and> handlers c' = pre @ AuthMiddleware # post
              \<and> 64 \<le> index c' \<and> sent c' = Some StatusUnauthorized \<and> served c' = []"
    using assms by (intro chain_rejects [where j = 0 and d = "length pre" and pre = pre and post = post and auth = auth]) simp_all
  then obtain c' where "Next secret now fuel ?c0 = Some c'" "sent c' = Some StatusUnauthorized"
      "served c' = []"
    by blast
  then show ?thesis
    by (simp add: handleHTTPRequest_def WriteHeaderNow_def)
qed

theorem AuthMiddleware_stops_chain_witness:
  "set [Logger, Recovery] \<subseteq> {Logger, Recovery}
   \<and> length ([Logger, Recovery] @ AuthMiddleware # [RouteHandler 0]) < 63
   \<and> snd (ParseWithClaims 0 (Unparsable []) (ByteSlice ''s3cret'')) \<noteq> None
   \<and> (\<exists>c'. handleHTTPRequest ''s3cret'' 0 8 (authorized 0) (Unparsable []) = Some c'
             \<and> sent c' = Some 401 \<and> served c' = [])"
  using AuthMiddleware_stops_chain
    [of "[Logger, Recovery]" "[RouteHandler 0]" 0 "Unparsable []" "''s3cret''" 8]
  by (simp add: ParseWithClaims_def authorized_def StatusUnauthorized_def)

subsection \<open>C6: wrong password and unknown username\<close>

text \<open>
  Claim C6: a sign-in with a registered username and a password that no record of that
  username matches, and a sign-in with a username that is not registered, get the same
  answer, 401 with the same body, whatever the collection holds.
\<close>

theorem SignIn_same_refusal:
  assumes "n1 \<in> Username ` set (docs coll)"
      and "\<forall>d \<in> set (docs coll). Username d = n1 \<longrightarrow> Password d \<noteq> Hash_Sum sha256_New p1"
      and "n2 \<notin> Username ` set (docs coll)"
  shows "SignInHandler secret now coll (Inr \<lparr>Username = n1, Password = p1\<rparr>)
           = \<lparr>Status = StatusUnauthorized, Body = H_error ''Invalid username or password''\<rparr>
       \<and> SignInHandler secret now' coll (Inr \<lparr>Username = n2, Password = p2\<rparr>)
           = \<lparr>Status = StatusUnauthorized, Body = H_error ''Invalid username or password''\<rparr>"
proof -
  have 1: "FindOne coll (\<lambda>d. Username d = n1 \<and> Password d = Hash_Sum sha256_New p1) = Document d
             \<Longrightarrow> False" for d
    using assms(2) by (auto dest: FindOne_Document)
  have 2: "FindOne coll (\<lambda>d. Username d = n2 \<and> Password d = Hash_Sum sha256_New p2) = Document d
             \<Longrightarrow> False" for d
    using assms(3) by (auto dest!: FindOne_Document)
  show ?thesis
    using 1 2 by (auto simp: SignInHandler_def Let_def split: SingleResult.splits)
qed

theorem SignIn_same_refusal_witness:
  "''alice'' \<in> Username ` set (docs
     \<lparr>docs = [\<lparr>Username = ''alice'', Password = ''pw1'' @ Sum256 []\<rparr>], reachable = True\<rparr>)
   \<and> ''bob'' \<notin> Username ` set (docs
     \<lparr>docs = [\<lparr>Username = ''alice'', Password = ''pw1'' @ Sum256 []\<rparr>], reachable = True\<rparr>)
   \<and> SignInHandler ''s3cret'' 0
     \<lparr>docs = [\<lparr>Username = ''alice'', Password = ''pw1'' @ Sum256 []\<rparr>], reachable = True\<rparr>
     (Inr \<lparr>Username = ''alice'', Password = ''pw2''\<rparr>)
   = \<lparr>Status = 401, Body = H_error ''Invalid username or password''\<rparr>
   \<and> SignInHandler ''s3cret'' 0
     \<lparr>docs = [\<lparr>Username = ''alice'', Password = ''pw1'' @ Sum256 []\<rparr>], reachable = True\<rparr>
     (Inr \<lparr>Username = ''bob'', Password = ''pw1''\<rparr>)
   = \<lparr>Status = 401, Body = H_error ''Invalid username or password''\<rparr>"
  using SignIn_same_refusal
    [where ?n1.0 = "''alice''" and ?p1.0 = "''pw2''" and ?n2.0 = "''bob''" and ?p2.0 = "''pw1''"
       and secret = "''s3cret''" and now = 0 and now' = 0
       and coll = "\<lparr>docs = [\<lparr>Username = ''alice'', Password = ''pw1'' @ Sum256 []\<rparr>], reachable = True\<rparr>"]
  by (simp add: Hash_Sum_New StatusUnauthorized_def)

subsection \<open>C7: a refresh before the 30 seconds window\<close>

text \<open>
  Claim C7 says that every token that parses and has more than 30 seconds left is
  answered 400. A correctly signed token whose expiry is the largest \<open>int64\<close> parses and
  has ages left, but \<open>time.Unix\<close> wraps on it, the computed remaining time is the smallest
  duration, the test against 30 seconds fails, and the handler goes on to mint (and
  answers 500 there).
\<close>

theorem Refresh_too_early_counterexample:
  "ParseWithClaims 0
       (Compact SigningMethodHS256
          \<lparr>Audience = [], ExpiresAt = 9223372036854775807, Id = [], IssuedAt = 0, Issuer = [],
           NotBefore = 0, Subject = [], ClaimsUsername = ''alice''\<rparr>
          (HMAC ''s3cret'' SigningMethodHS256
             \<lparr>Audience = [], ExpiresAt = 9223372036854775807, Id = [], IssuedAt = 0, Issuer = [],
              NotBefore = 0, Subject = [], ClaimsUsername = ''alice''\<rparr>))
       (ByteSlice ''s3cret'')
     = (Some \<lparr>Method = SigningMethodHS256,
              TokenClaims = \<lparr>Audience = [], ExpiresAt = 9223372036854775807, Id = [],
                             IssuedAt = 0, Issuer = [], NotBefore = 0, Subject = [],
                             ClaimsUsername = ''alice''\<rparr>,
              TokenSignature = HMAC ''s3cret'' SigningMethodHS256
                \<lparr>Audience = [], ExpiresAt = 9223372036854775807, Id = [], IssuedAt = 0,
                 Issuer = [], NotBefore = 0, Subject = [], ClaimsUsername = ''alice''\<rparr>,
              Valid = True\<rparr>, None)
   \<and> 9223372036854775807 * Second - 0 > 30 * Second
   \<and> RefreshHandler ''s3cret'' 0 0 0
       (Compact SigningMethodHS256
          \<lparr>Audience = [], ExpiresAt = 9223372036854775807, Id = [], IssuedAt = 0, Issuer = [],
           NotBefore = 0, Subject = [], ClaimsUsername = ''alice''\<rparr>
          (HMAC ''s3cret'' SigningMethodHS256
             \<lparr>Audience = [], ExpiresAt = 9223372036854775807, Id = [], IssuedAt = 0, Issuer = [],
              NotBefore = 0, Subject = [], ClaimsUsername = ''alice''\<rparr>))
     = \<lparr>Status = 500, Body = H_error ''key is of invalid type''\<rparr>"
  by (simp add: RefreshHandler_def ParseWithClaims_def Claims_Valid_def Verify_def isHMAC_def
        Let_def verifyExp_def verifyIat_def verifyNbf_def Time_Unix_def time_Unix_def
        int64_def unixToInternal_def Time_Sub_def maxDuration_def minDuration_def Second_def
        SignedString_GoString ErrInvalidKeyType_def StatusInternalServerError_def)

text \<open>
  Claim C7 as amended: when the token parses, its expiry is at most 9223371974719179007
  Unix seconds (the largest that \<open>time.Unix\<close> converts without wrapping) and more than 30
  seconds are left until that expiry at the time the handler compares, the answer is 400
  and carries no token.
\<close>

theorem Refresh_too_early:
  assumes "ParseWithClaims tParse tokenValue (ByteSlice secret) = (Some tkn, None)"
      and "ExpiresAt (TokenClaims tkn) \<le> 9223371974719179007"
      and "ExpiresAt (TokenClaims tkn) * Second - tCheck > 30 * Second"
  shows "RefreshHandler secret tParse tCheck tMint tokenValue
           = \<lparr>Status = StatusBadRequest, Body = H_error ''Token is not expired yet''\<rparr>"
proof -
  from assms(1) have v: "Valid tkn" by (auto simp: ParseWithClaims_ok)
  have "time_Unix (ExpiresAt (TokenClaims tkn)) - tCheck > 30 * Second"
    using time_Unix_ge [OF assms(2)] assms(3) by linarith
  then have "Time_Sub (time_Unix (ExpiresAt (TokenClaims tkn))) tCheck > 30 * Second"
    by (simp add: Time_Sub_def maxDuration_def minDuration_def Second_def)
  with v assms(1) show ?thesis
    by (simp add: RefreshHandler_def Let_def)
qed

theorem Refresh_too_early_witness:
  "ParseWithClaims 0
       (Compact SigningMethodHS256
          \<lparr>Audience = [], ExpiresAt = 600, Id = [], IssuedAt = 0, Issuer = [], NotBefore = 0,
           Subject = [], ClaimsUsername = ''alice''\<rparr>
          (HMAC ''s3cret'' SigningMethodHS256
             \<lparr>Audience = [], ExpiresAt = 600, Id = [], IssuedAt = 0, Issuer = [], NotBefore = 0,
              Subject = [], ClaimsUsername = ''alice''\<rparr>))
       (ByteSlice ''s3cret'')
     = (Some \<lparr>Method = SigningMethodHS256,
              TokenClaims = \<lparr>Audience = [], ExpiresAt = 600, Id = [], IssuedAt = 0, Issuer = [],
                             NotBefore = 0, Subject = [], ClaimsUsername = ''alice''\<rparr>,
              TokenSignature = HMAC ''s3cret'' SigningMethodHS256
                \<lparr>Audience = [], ExpiresAt = 600, Id = [], IssuedAt = 0, Issuer = [],
                 NotBefore = 0, Subject = [], ClaimsUsername = ''alice''\<rparr>,
              Valid = True\<rparr>, None)
   \<and> (600::int) \<le> 9223371974719179007
   \<and> 600 * Second - 0 > 30 * Second
   \<and> RefreshHandler ''s3cret'' 0 0 0
       (Compact SigningMethodHS256
          \<lparr>Audience = [], ExpiresAt = 600, Id = [], IssuedAt = 0, Issuer = [], NotBefore = 0,
           Subject = [], ClaimsUsername = ''alice''\<rparr>
          (HMAC ''s3cret'' SigningMethodHS256
             \<lparr>Audience = [], ExpiresAt = 600, Id = [], IssuedAt = 0, Issuer = [], NotBefore = 0,
              Subject = [], ClaimsUsername = ''alice''\<rparr>))
     = \<lparr>Status = 400, Body = H_error ''Token is not expired yet''\<rparr>"
proof -
  let ?c = "\<lparr>Audience = [], ExpiresAt = 600, Id = [], IssuedAt = 0, Issuer = [], NotBefore = 0,
             Subject = [], ClaimsUsername = ''alice''\<rparr>"
  let ?tok = "Compact SigningMethodHS256 ?c (HMAC ''s3cret'' SigningMethodHS256 ?c)"
  let ?tkn = "\<lparr>Method = SigningMethodHS256, TokenClaims = ?c,
               TokenSignature = HMAC ''s3cret'' SigningMethodHS256 ?c, Valid = True\<rparr>"
  have p: "ParseWithClaims 0 ?tok (ByteSlice ''s3cret'') = (Some ?tkn, None)"
    by (simp add: ParseWithClaims_ok Claims_Valid_None Verify_HMAC isHMAC_def Time_Unix_def Second_def)
  have b: "ExpiresAt (TokenClaims ?tkn) \<le> 9223371974719179007"
    by simp
  have t: "ExpiresAt (TokenClaims ?tkn) * Second - 0 > 30 * Second"
    by (simp add: Second_def)
  show ?thesis
    using Refresh_too_early [OF p b t, of 0] p t by (simp add: StatusBadRequest_def)
qed

subsection \<open>C8: signing up with a username that is taken\<close>

text \<open>
  Claim C8: when the collection holds a record with the username, sign-up answers 400
  and the collection is what it was.
\<close>

theorem SignUp_existing_username:
  assumes "d \<in> set (docs coll)" and "Username d = Username user"
  shows "SignUpHandler coll (Inr user)
           = (\<lparr>Status = StatusBadRequest, Body = H_error ''Username already exists''\<rparr>, coll)"
proof -
  have "filter (\<lambda>d. Username d = Username user) (docs coll) \<noteq> []"
    using assms by (auto simp: filter_empty_conv)
  then have "FindOne coll (\<lambda>d. Username d = Username user) \<noteq> ErrNoDocuments"
    by (simp add: FindOne_cases)
  then show ?thesis
    by (simp add: SignUpHandler_def split: SingleResult.splits)
qed

theorem SignUp_existing_username_witness:
  "\<lparr>Username = ''alice'', Password = ''pw1'' @ Sum256 []\<rparr>
     \<in> set (docs \<lparr>docs = [\<lparr>Username = ''alice'', Password = ''pw1'' @ Sum256 []\<rparr>], reachable = True\<rparr>)
   \<and> SignUpHandler \<lparr>docs = [\<lparr>Username = ''alice'', Password = ''pw1'' @ Sum256 []\<rparr>], reachable = True\<rparr>
         (Inr \<lparr>Username = ''alice'', Password = ''pw2''\<rparr>)
       = (\<lparr>Status = 400, Body = H_error ''Username already exists''\<rparr>,
          \<lparr>docs = [\<lparr>Username = ''alice'', Password = ''pw1'' @ Sum256 []\<rparr>], reachable = True\<rparr>)"
  using SignUp_existing_username
    [of "\<lparr>Username = ''alice'', Password = ''pw1'' @ Sum256 []\<rparr>"
        "\<lparr>docs = [\<lparr>Username = ''alice'', Password = ''pw1'' @ Sum256 []\<rparr>], reachable = True\<rparr>"
        "\<lparr>Username = ''alice'', Password = ''pw2''\<rparr>"]
  by (simp add: StatusBadRequest_def)

subsection \<open>C9: the expiry of a token issued by sign-in\<close>

text \<open>
  Claim C9 says that the returned expiry is 10 minutes after the issuance time and that
  the expiry in the claims equals it. The claims hold whole seconds: a sign-in half a
  second after the epoch returns the expiry 600.5 s and embeds 600.
\<close>

theorem SignIn_expiry_counterexample:
  "SignInHandler ''s3cret'' 500000000
     \<lparr>docs = [\<lparr>Username = ''alice'', Password = ''pw1'' @ Sum256 []\<rparr>], reachable = True\<rparr>
     (Inr \<lparr>Username = ''alice'', Password = ''pw1''\<rparr>)
   = \<lparr>Status = 200,
      Body = JSON_JWTOutput
        \<lparr>Token = Compact SigningMethodHS256
                   \<lparr>Audience = [], ExpiresAt = 600, Id = [], IssuedAt = 0, Issuer = [],
                    NotBefore = 0, Subject = [], ClaimsUsername = ''alice''\<rparr>
                   (HMAC ''s3cret'' SigningMethodHS256
                      \<lparr>Audience = [], ExpiresAt = 600, Id = [], IssuedAt = 0, Issuer = [],
                       NotBefore = 0, Subject = [], ClaimsUsername = ''alice''\<rparr>),
         Expires = 600500000000\<rparr>\<rparr>
   \<and> time_Unix 600 \<noteq> 600500000000"
  by (simp add: SignInHandler_def FindOne_def Hash_Sum_New Let_def SignedString_ByteSlice
        Time_Add_def Time_Unix_def time_Unix_def int64_def unixToInternal_def Minute_def Second_def
        StatusOK_def)

text \<open>
  Claim C9 as amended: the returned expiry is exactly 10 minutes after the issuance time,
  and the expiry in the claims is the returned one in whole Unix seconds, the fraction of a
  second dropped.
\<close>

theorem SignIn_expiry:
  assumes "Status (SignInHandler secret now coll bound) = StatusOK"
  shows "\<exists>m c sig expires.
           Body (SignInHandler secret now coll bound)
             = JSON_JWTOutput \<lparr>Token = Compact m c sig, Expires = expires\<rparr>
           \<and> expires = now + 10 * Minute
           \<and> ExpiresAt c = Time_Unix expires"
  by (simp add: SignIn_OK [OF assms] Let_def)

theorem SignIn_expiry_witness:
  "Status (SignInHandler ''s3cret'' 500000000
     \<lparr>docs = [\<lparr>Username = ''alice'', Password = ''pw1'' @ Sum256 []\<rparr>], reachable = True\<rparr>
     (Inr \<lparr>Username = ''alice'', Password = ''pw1''\<rparr>)) = StatusOK
   \<and> (\<exists>m c sig expires.
         Body (SignInHandler ''s3cret'' 500000000
           \<lparr>docs = [\<lparr>Username = ''alice'', Password = ''pw1'' @ Sum256 []\<rparr>], reachable = True\<rparr>
           (Inr \<lparr>Username = ''alice'', Password = ''pw1''\<rparr>))
           = JSON_JWTOutput \<lparr>Token = Compact m c sig, Expires = expires\<rparr>
         \<and> expires = 500000000 + 10 * Minute
         \<and> ExpiresAt c = Time_Unix expires)"
proof -
  have s: "Status (SignInHandler ''s3cret'' 500000000
     \<lparr>docs = [\<lparr>Username = ''alice'', Password = ''pw1'' @ Sum256 []\<rparr>], reachable = True\<rparr>
     (Inr \<lparr>Username = ''alice'', Password = ''pw1''\<rparr>)) = StatusOK"
    by (simp add: SignInHandler_def FindOne_def Hash_Sum_New Let_def SignedString_ByteSlice)
  show ?thesis
    using SignIn_expiry [OF s] s by simp
qed

subsection \<open>C10: looking a user up\<close>




end
